theory Spec2Isabelle
  imports Complex_Main
begin

section \<open>Line Learner: the practice session engine of \<open>src/index.tsx\<close>\<close>

text \<open>
  The component \<open>App\<close> of \<open>src/index.tsx\<close> keeps its state in React hooks and
  computes with JavaScript strings. The functions below embed the pure parts of the
  component (script parsing, the pronunciation rewrite, accuracy scoring, the cursor
  advance, the settings that are saved and loaded) and the event handlers of the
  recognition object as functions on an explicit state.

  Text is a \<open>string\<close>, one \<open>char\<close> for each code unit. The character classes and the
  case mappings below are those of JavaScript on ASCII text: a code unit above
  \<open>0x7F\<close> is, in this embedding, neither white space nor a word character and has
  no other case.
\<close>

subsection \<open>Characters and strings\<close>

definition code :: "char \<Rightarrow> nat" where
  "code c = of_char c"

text \<open>White space of \<open>\<bslash>s\<close> and of \<open>trim\<close>: TAB, LF, VT, FF, CR and the space.\<close>

definition isSpace :: "char \<Rightarrow> bool" where
  "isSpace c = (let n = code c in (9 \<le> n \<and> n \<le> 13) \<or> n = 32)"

definition isUpper :: "char \<Rightarrow> bool" where
  "isUpper c = (let n = code c in 65 \<le> n \<and> n \<le> 90)"

definition isLower :: "char \<Rightarrow> bool" where
  "isLower c = (let n = code c in 97 \<le> n \<and> n \<le> 122)"

definition isDigit :: "char \<Rightarrow> bool" where
  "isDigit c = (let n = code c in 48 \<le> n \<and> n \<le> 57)"

text \<open>The class \<open>\<bslash>w\<close>: letters, digits and the underscore.\<close>

definition isWordChar :: "char \<Rightarrow> bool" where
  "isWordChar c = (isUpper c \<or> isLower c \<or> isDigit c \<or> c = CHR ''_'')"

text \<open>What \<open>.\<close> does not match: the line terminators LF and CR.\<close>

definition isLineTerminator :: "char \<Rightarrow> bool" where
  "isLineTerminator c = (code c = 10 \<or> code c = 13)"

definition toUpperChar :: "char \<Rightarrow> char" where
  "toUpperChar c = (if isLower c then char_of (code c - 32) else c)"

definition toLowerChar :: "char \<Rightarrow> char" where
  "toLowerChar c = (if isUpper c then char_of (code c + 32) else c)"

definition toUpperCase :: "string \<Rightarrow> string" where
  "toUpperCase s = map toUpperChar s"

definition toLowerCase :: "string \<Rightarrow> string" where
  "toLowerCase s = map toLowerChar s"

definition trim :: "string \<Rightarrow> string" where
  "trim s = rev (dropWhile isSpace (rev (dropWhile isSpace s)))"

text \<open>\<open>s.split(sep)\<close> for a separator of one character: never the empty array.\<close>

fun split_on :: "char \<Rightarrow> string \<Rightarrow> string list" where
  "split_on sep [] = [[]]"
| "split_on sep (c # cs) =
     (if c = sep then [] # split_on sep cs
      else (case split_on sep cs of
              [] \<Rightarrow> [[c]]
            | w # ws \<Rightarrow> (c # w) # ws))"

text \<open>\<open>parts.join(sep)\<close>.\<close>

fun join :: "string \<Rightarrow> string list \<Rightarrow> string" where
  "join sep [] = []"
| "join sep [w] = w"
| "join sep (w # v # ws) = w @ sep @ join sep (v # ws)"

text \<open>
  \<open>s.split(/\<bslash>s+/)\<close>: the pieces between the maximal runs of white space, an empty
  piece before a leading run and after a trailing one.
\<close>

function split_ws :: "string \<Rightarrow> string \<Rightarrow> string list" where
  "split_ws cur [] = [rev cur]"
| "split_ws cur (c # cs) =
     (if isSpace c then rev cur # split_ws [] (dropWhile isSpace cs)
      else split_ws (c # cur) cs)"
  by pat_completeness auto
termination
  by (relation "measure (\<lambda>(cur, s). length s)")
     (auto simp: length_dropWhile_le less_Suc_eq_le)

subsection \<open>Accuracy scoring: \<open>calculateAccuracy\<close>\<close>

datatype word_status = Correct | Incorrect | Missing

record report_entry =
  word :: string
  status :: word_status

text \<open>
  \<open>x.toLowerCase().replace(/[^\<bslash>w\<bslash>s]/g, '').split(/\<bslash>s+/).filter(Boolean)\<close>
\<close>

definition normalizeWords :: "string \<Rightarrow> string list" where
  "normalizeWords x =
     filter (\<lambda>w. w \<noteq> [])
       (split_ws [] (filter (\<lambda>c. isWordChar c \<or> isSpace c) (toLowerCase x)))"

text \<open>
  The \<open>for\<close> loop of \<open>calculateAccuracy\<close>: \<open>i\<close> runs over the report, \<open>tIdx\<close> is the
  cursor into the transcript words, and the report is updated in place.
\<close>

function accuracy_loop :: "string list \<Rightarrow> nat \<Rightarrow> nat \<Rightarrow> report_entry list \<Rightarrow> report_entry list" where
  "accuracy_loop transcriptWords i tIdx report =
     (if i < length report then
        (if tIdx < length transcriptWords \<and> word (report ! i) = transcriptWords ! tIdx
         then accuracy_loop transcriptWords (i + 1) (tIdx + 1)
                (report[i := (report ! i)\<lparr>status := Correct\<rparr>])
         else accuracy_loop transcriptWords (i + 1) tIdx
                (report[i := (report ! i)\<lparr>status := Incorrect\<rparr>]))
      else report)"
  by pat_completeness auto
termination
  by (relation "measure (\<lambda>(tw, i, tIdx, report). length report - i)") auto

declare accuracy_loop.simps [simp del]

definition calculateAccuracy :: "string \<Rightarrow> string \<Rightarrow> report_entry list" where
  "calculateAccuracy original transcript =
     (let originalWords = normalizeWords original;
          transcriptWords = normalizeWords transcript;
          report = map (\<lambda>w. \<lparr>word = w, status = Missing\<rparr>) originalWords
      in accuracy_loop transcriptWords 0 0 report)"

subsection \<open>Numbers read from text: \<open>parseInt\<close>\<close>

text \<open>
  A JavaScript number that is either an integer or \<open>NaN\<close> (\<open>None\<close>). Every
  comparison with \<open>NaN\<close> is false.
\<close>

type_synonym jsnum = "int option"

definition num_ge :: "jsnum \<Rightarrow> jsnum \<Rightarrow> bool" where
  "num_ge a b = (case (a, b) of (Some x, Some y) \<Rightarrow> y \<le> x | _ \<Rightarrow> False)"

definition num_gt :: "jsnum \<Rightarrow> jsnum \<Rightarrow> bool" where
  "num_gt a b = (case (a, b) of (Some x, Some y) \<Rightarrow> y < x | _ \<Rightarrow> False)"

definition num_minus :: "jsnum \<Rightarrow> int \<Rightarrow> jsnum" where
  "num_minus a k = map_option (\<lambda>x. x - k) a"

definition num_plus :: "jsnum \<Rightarrow> int \<Rightarrow> jsnum" where
  "num_plus a k = map_option (\<lambda>x. x + k) a"

text \<open>The value of a digit, 36 for a character that is no digit in any radix.\<close>

definition digitValue :: "char \<Rightarrow> nat" where
  "digitValue c =
     (if isDigit c then code c - 48
      else if isLower c then code c - 87
      else if isUpper c then code c - 55
      else 36)"

definition radixValue :: "nat \<Rightarrow> string \<Rightarrow> nat" where
  "radixValue r z = foldl (\<lambda>acc c. acc * r + digitValue c) 0 z"

definition stripSign :: "string \<Rightarrow> int \<times> string" where
  "stripSign s =
     (case s of
        [] \<Rightarrow> (1, [])
      | c # cs \<Rightarrow> if c = CHR ''-'' then (- 1, cs) else if c = CHR ''+'' then (1, cs) else (1, s))"

definition stripPrefix :: "string \<Rightarrow> nat \<times> string" where
  "stripPrefix s =
     (case s of
        a # b # cs \<Rightarrow> if a = CHR ''0'' \<and> (b = CHR ''x'' \<or> b = CHR ''X'') then (16, cs) else (10, s)
      | _ \<Rightarrow> (10, s))"

definition parseInt :: "string \<Rightarrow> jsnum" where
  "parseInt s =
     (let (sign, s1) = stripSign (dropWhile isSpace s);
          (radix, s2) = stripPrefix s1;
          z = takeWhile (\<lambda>c. digitValue c < radix) s2
      in if z = [] then None else Some (sign * int (radixValue radix z)))"




subsection \<open>Parsed lines\<close>

record LineEntry =
  character :: string
  dialogue :: string
  direction :: string

subsection \<open>Script parsing: \<open>lineRegex\<close>\<close>

text \<open>
  The pattern is
  \<^verbatim>\<open>/^([A-Z0-9\s_'-]+):\s*(?:\((.*?)\)\s*)?(.*)$/\<close>.
  It is embedded as a backtracking matcher in continuation-passing style: each piece
  of the pattern takes the continuation that matches the rest of the pattern, tries its
  alternatives in the order of the regular-expression engine and returns the first
  success. The continuation of a star receives the text the star matched and the text
  that is left.
\<close>

text \<open>The class \<open>[A-Z0-9\<bslash>s_'-]\<close>; the pattern has no \<open>i\<close> flag.\<close>

definition isNameChar :: "char \<Rightarrow> bool" where
  "isNameChar c =
     (isUpper c \<or> isDigit c \<or> isSpace c \<or> c = CHR ''_'' \<or> c = CHR 0x27 \<or> c = CHR ''-'')"

text \<open>A greedy star: takes a character when it can, and gives it back when the rest fails.\<close>

fun greedy_star :: "(char \<Rightarrow> bool) \<Rightarrow> (string \<Rightarrow> string \<Rightarrow> 'r option) \<Rightarrow> string \<Rightarrow> string \<Rightarrow> 'r option" where
  "greedy_star P k acc [] = k (rev acc) []"
| "greedy_star P k acc (c # cs) =
     (if P c then
        (case greedy_star P k (c # acc) cs of
           Some r \<Rightarrow> Some r
         | None \<Rightarrow> k (rev acc) (c # cs))
      else k (rev acc) (c # cs))"

text \<open>A lazy star: tries the rest first, and takes a character only when the rest fails.\<close>

fun lazy_star :: "(char \<Rightarrow> bool) \<Rightarrow> (string \<Rightarrow> string \<Rightarrow> 'r option) \<Rightarrow> string \<Rightarrow> string \<Rightarrow> 'r option" where
  "lazy_star P k acc [] = k (rev acc) []"
| "lazy_star P k acc (c # cs) =
     (case k (rev acc) (c # cs) of
        Some r \<Rightarrow> Some r
      | None \<Rightarrow> if P c then lazy_star P k (c # acc) cs else None)"

definition greedy_plus :: "(char \<Rightarrow> bool) \<Rightarrow> (string \<Rightarrow> string \<Rightarrow> 'r option) \<Rightarrow> string \<Rightarrow> 'r option" where
  "greedy_plus P k s =
     (case s of
        [] \<Rightarrow> None
      | c # cs \<Rightarrow> if P c then greedy_star P k [c] cs else None)"

definition lit :: "char \<Rightarrow> (string \<Rightarrow> 'r option) \<Rightarrow> string \<Rightarrow> 'r option" where
  "lit x k s =
     (case s of
        [] \<Rightarrow> None
      | c # cs \<Rightarrow> if c = x then k cs else None)"

text \<open>
  The groups of a match: \<open>match[1]\<close>, \<open>match[2]\<close> and \<open>match[3]\<close>, \<open>None\<close> for
  \<open>undefined\<close>.
\<close>

type_synonym groups = "string option \<times> string option \<times> string option"

text \<open>\<open>(.*)$\<close>\<close>

definition tail_match :: "string option \<Rightarrow> string option \<Rightarrow> string \<Rightarrow> groups option" where
  "tail_match m1 m2 s =
     greedy_star (\<lambda>c. \<not> isLineTerminator c)
       (\<lambda>m3 rest. if rest = [] then Some (m1, m2, Some m3) else None) [] s"

text \<open>\<open>\<bslash>((.*?)\<bslash>)\<bslash>s*\<close>, followed by \<open>(.*)$\<close>\<close>

definition direction_group :: "string option \<Rightarrow> string \<Rightarrow> groups option" where
  "direction_group m1 s =
     lit CHR ''('' (lazy_star (\<lambda>c. \<not> isLineTerminator c)
       (\<lambda>m2. lit CHR '')'' (greedy_star isSpace (\<lambda>_. tail_match m1 (Some m2)) [])) []) s"

text \<open>
  The whole pattern. \<open>^\<close> lets a match start at the first character only. The group
  in \<open>(?: ... )?\<close> is tried first, and skipped when the match cannot be completed
  with it.
\<close>

definition lineRegex :: "string \<Rightarrow> groups option" where
  "lineRegex line =
     greedy_plus isNameChar
       (\<lambda>m1. lit CHR '':''
          (greedy_star isSpace
             (\<lambda>_ s. case direction_group (Some m1) s of
                       Some r \<Rightarrow> Some r
                     | None \<Rightarrow> tail_match (Some m1) None s) [])) line"

datatype js_error = TypeError

text \<open>
  The callback of the second \<open>map\<close>. Calling \<open>trim\<close> on \<open>undefined\<close> throws a
  \<open>TypeError\<close>; \<open>match[2]?.trim() || ''\<close> does not.
\<close>

definition parseLine :: "string \<Rightarrow> js_error + LineEntry" where
  "parseLine line =
     (case lineRegex line of
        None \<Rightarrow>
          (case split_on CHR '':'' line of
             [] \<Rightarrow> Inl TypeError
           | characterPart # dialogueParts \<Rightarrow>
               Inr \<lparr>character = toUpperCase (trim characterPart),
                    dialogue = trim (join '':'' dialogueParts),
                    direction = []\<rparr>)
      | Some (m1, m2, m3) \<Rightarrow>
          (case m1 of
             None \<Rightarrow> Inl TypeError
           | Some c \<Rightarrow>
               (case m3 of
                  None \<Rightarrow> Inl TypeError
                | Some d \<Rightarrow>
                    Inr \<lparr>character = toUpperCase (trim c),
                         dialogue = trim d,
                         direction =
                           (case m2 of
                              None \<Rightarrow> []
                            | Some x \<Rightarrow> if trim x \<noteq> [] then trim x else [])\<rparr>)))"

text \<open>\<open>xs.map(f)\<close> for a callback that may throw: the first exception ends the map.\<close>

fun map_throwing :: "('a \<Rightarrow> 'e + 'b) \<Rightarrow> 'a list \<Rightarrow> 'e + 'b list" where
  "map_throwing f [] = Inr []"
| "map_throwing f (x # xs) =
     (case f x of
        Inl e \<Rightarrow> Inl e
      | Inr y \<Rightarrow> (case map_throwing f xs of Inl e \<Rightarrow> Inl e | Inr ys \<Rightarrow> Inr (y # ys)))"

text \<open>\<open>Boolean(entry)\<close>: an object is truthy.\<close>

definition truthy :: "LineEntry \<Rightarrow> bool" where
  "truthy entry = True"

definition colonLines :: "string \<Rightarrow> string list" where
  "colonLines scriptText =
     filter (\<lambda>line. CHR '':'' \<in> set line) (map trim (split_on CHR 0x0A scriptText))"

definition parsedLines :: "string \<Rightarrow> js_error + LineEntry list" where
  "parsedLines scriptText =
     (case map_throwing parseLine (colonLines scriptText) of
        Inl e \<Rightarrow> Inl e
      | Inr entries \<Rightarrow> Inr (filter truthy entries))"

text \<open>\<open>Array.from(new Set(xs))\<close>: a set keeps its elements in the order of insertion.\<close>

definition arrayFromSet :: "'a list \<Rightarrow> 'a list" where
  "arrayFromSet xs = foldl (\<lambda>acc x. if x \<in> set acc then acc else acc @ [x]) [] xs"

subsection \<open>The session state\<close>

datatype practice_mode = Dialogue | ReadAlong

text \<open>
  The state variables of \<open>App\<close> that the parser, the cursor, the recognition
  handlers and the saved settings read or write. \<open>statusText\<close> is the state variable
  \<open>status\<close>; \<open>characterVoices\<close> is an object from character names to voice URIs;
  \<open>recorderRecording\<close> is \<open>mediaRecorderRef.current?.state === 'recording'\<close>;
  \<open>advanceTimers\<close> counts the calls \<open>setTimeout(advanceLine, 1500)\<close> that have not
  fired yet. The numbers of the three sliders are modelled as reals.
\<close>

record session =
  script :: string
  pronunciations :: string
  lines :: "LineEntry list"
  characters :: "string list"
  selectedCharacter :: string
  characterVoices :: "(string \<times> string) list"
  speechRate :: real
  pitch :: real
  volume :: real
  selectedLang :: string
  isAccuracyCheckEnabled :: bool
  practiceMode :: practice_mode
  isRecordAndPlaybackEnabled :: bool
  loopStartLine :: string
  loopEndLine :: string
  isPracticing :: bool
  currentLineIndex :: jsnum
  statusText :: string
  transcript :: string
  recorderRecording :: bool
  advanceTimers :: nat

text \<open>The initial values of the \<open>useState\<close> calls.\<close>

definition initialState :: session where
  "initialState =
     \<lparr>script = [], pronunciations = [], lines = [], characters = [],
      selectedCharacter = [], characterVoices = [], speechRate = 1, pitch = 1, volume = 1,
      selectedLang = ''en-US'', isAccuracyCheckEnabled = True, practiceMode = Dialogue,
      isRecordAndPlaybackEnabled = True, loopStartLine = [], loopEndLine = [],
      isPracticing = False, currentLineIndex = Some 0, statusText = [], transcript = [],
      recorderRecording = False, advanceTimers = 0\<rparr>"

subsection \<open>The cursor: \<open>advanceLine\<close> and \<open>handleStartPractice\<close>\<close>

text \<open>
  The updater that \<open>advanceLine\<close> passes to \<open>setCurrentLineIndex\<close>; \<open>endLine\<close> is
  its constant \<open>end\<close>. A string is truthy when it is not empty.
\<close>

definition advanceLine_next :: "string \<Rightarrow> string \<Rightarrow> jsnum \<Rightarrow> jsnum" where
  "advanceLine_next loopStart loopEnd prev =
     (let nextIndex = num_plus prev 1;
          start = (if loopStart \<noteq> [] then num_minus (parseInt loopStart) 1 else Some (- 1));
          endLine = (if loopEnd \<noteq> [] then parseInt loopEnd else Some (- 1))
      in if num_ge start (Some 0) \<and> num_gt endLine (Some 0) \<and> num_ge nextIndex endLine
         then start
         else nextIndex)"

definition advanceLine :: "session \<Rightarrow> session" where
  "advanceLine s =
     s\<lparr>currentLineIndex :=
         advanceLine_next (loopStartLine s) (loopEndLine s) (currentLineIndex s)\<rparr>"

definition startIdx :: "string \<Rightarrow> jsnum" where
  "startIdx loopStart =
     (if loopStart \<noteq> [] \<and> num_gt (parseInt loopStart) (Some 0)
      then num_minus (parseInt loopStart) 1
      else Some 0)"

definition handleStartPractice :: "session \<Rightarrow> session" where
  "handleStartPractice s =
     (if lines s \<noteq> [] \<and> selectedCharacter s \<noteq> []
      then s\<lparr>isPracticing := True,
             currentLineIndex := startIdx (loopStartLine s),
             transcript := []\<rparr>
      else s)"

subsection \<open>The script effect\<close>

text \<open>
  The effect that runs when \<open>script\<close> changes. \<open>uniqueCharacters[0]\<close> is read only
  when the array is not empty.
\<close>

definition scriptEffect :: "session \<Rightarrow> js_error + session" where
  "scriptEffect s =
     (case parsedLines (script s) of
        Inl e \<Rightarrow> Inl e
      | Inr parsed \<Rightarrow>
          (let uniqueCharacters = arrayFromSet (map character parsed);
               s1 = s\<lparr>lines := parsed, characters := uniqueCharacters\<rparr>
           in if uniqueCharacters \<noteq> [] \<and> selectedCharacter s \<notin> set uniqueCharacters
              then Inr (s1\<lparr>selectedCharacter := hd uniqueCharacters\<rparr>)
              else if uniqueCharacters = []
              then Inr (s1\<lparr>selectedCharacter := []\<rparr>)
              else Inr s1))"

subsection \<open>The handlers of the recognition object\<close>

text \<open>
  \<open>recognition.onerror\<close> and \<open>recognition.onend\<close> of \<open>startRecognition\<close>. The
  handler \<open>onend\<close> reads the \<open>isPracticing\<close> of the render that called
  \<open>startRecognition\<close>: it is the argument \<open>practicing\<close>. \<open>timerFires\<close> is the
  moment one pending \<open>setTimeout(advanceLine, 1500)\<close> runs.
\<close>

definition onerror :: "string \<Rightarrow> session \<Rightarrow> session" where
  "onerror error s =
     (if error \<noteq> ''aborted''
      then s\<lparr>statusText := ''Sorry, I didn'' @ [CHR 0x27] @ ''t catch that.''\<rparr>
      else s)"

definition onend :: "bool \<Rightarrow> session \<Rightarrow> session" where
  "onend practicing s =
     (let s1 = (if recorderRecording s then s\<lparr>recorderRecording := False\<rparr> else s)
      in if practicing then s1\<lparr>advanceTimers := advanceTimers s1 + 1\<rparr> else s1)"

definition timerFires :: "session \<Rightarrow> session" where
  "timerFires s =
     (if 0 < advanceTimers s
      then advanceLine (s\<lparr>advanceTimers := advanceTimers s - 1\<rparr>)
      else s)"

subsection \<open>Saved settings\<close>

text \<open>
  The object that the save effect writes under \<open>lineLearnerSettingsV2\<close>, as
  \<open>JSON.parse\<close> gives it back: \<open>JSON.parse(JSON.stringify(x))\<close> has the properties
  of \<open>x\<close> with their values when these are strings, finite numbers, booleans and
  objects of strings, which is all the save effect writes. A property that is missing
  is \<open>None\<close> (\<open>undefined\<close>).
\<close>

record saved_settings =
  saved_script :: "string option"
  saved_pronunciations :: "string option"
  saved_selectedCharacter :: "string option"
  saved_characterVoices :: "(string \<times> string) list option"
  saved_speechRate :: "real option"
  saved_pitch :: "real option"
  saved_volume :: "real option"
  saved_selectedLang :: "string option"
  saved_isAccuracyCheckEnabled :: "bool option"
  saved_practiceMode :: "practice_mode option"
  saved_isRecordAndPlaybackEnabled :: "bool option"
  saved_loopStartLine :: "string option"
  saved_loopEndLine :: "string option"

text \<open>
  \<open>x || d\<close> gives \<open>d\<close> when \<open>x\<close> is falsy: \<open>undefined\<close>, the empty string, the
  number 0. An object and the two practice modes are truthy. \<open>x ?? d\<close> gives \<open>d\<close>
  only when \<open>x\<close> is \<open>undefined\<close> or \<open>null\<close>.
\<close>

definition or_string :: "string option \<Rightarrow> string \<Rightarrow> string" where
  "or_string x d = (case x of None \<Rightarrow> d | Some v \<Rightarrow> if v = [] then d else v)"

definition or_number :: "real option \<Rightarrow> real \<Rightarrow> real" where
  "or_number x d = (case x of None \<Rightarrow> d | Some v \<Rightarrow> if v = 0 then d else v)"

definition or_truthy :: "'a option \<Rightarrow> 'a \<Rightarrow> 'a" where
  "or_truthy x d = (case x of None \<Rightarrow> d | Some v \<Rightarrow> v)"

definition nullish :: "'a option \<Rightarrow> 'a \<Rightarrow> 'a" where
  "nullish x d = (case x of None \<Rightarrow> d | Some v \<Rightarrow> v)"

definition saveSettings :: "session \<Rightarrow> saved_settings" where
  "saveSettings s =
     \<lparr>saved_script = Some (script s),
      saved_pronunciations = Some (pronunciations s),
      saved_selectedCharacter = Some (selectedCharacter s),
      saved_characterVoices = Some (characterVoices s),
      saved_speechRate = Some (speechRate s),
      saved_pitch = Some (pitch s),
      saved_volume = Some (volume s),
      saved_selectedLang = Some (selectedLang s),
      saved_isAccuracyCheckEnabled = Some (isAccuracyCheckEnabled s),
      saved_practiceMode = Some (practiceMode s),
      saved_isRecordAndPlaybackEnabled = Some (isRecordAndPlaybackEnabled s),
      saved_loopStartLine = Some (loopStartLine s),
      saved_loopEndLine = Some (loopEndLine s)\<rparr>"

text \<open>
  The load effect; \<open>savedSettings\<close> is \<open>None\<close> when \<open>localStorage.getItem\<close> returns
  \<open>null\<close>.
\<close>

definition loadSettings :: "saved_settings option \<Rightarrow> session \<Rightarrow> session" where
  "loadSettings savedSettings s =
     (case savedSettings of
        None \<Rightarrow> s
      | Some settings \<Rightarrow>
          s\<lparr>script := or_string (saved_script settings) [],
            pronunciations := or_string (saved_pronunciations settings) [],
            selectedCharacter := or_string (saved_selectedCharacter settings) [],
            characterVoices := or_truthy (saved_characterVoices settings) [],
            speechRate := or_number (saved_speechRate settings) 1,
            pitch := or_number (saved_pitch settings) 1,
            volume := or_number (saved_volume settings) 1,
            selectedLang := or_string (saved_selectedLang settings) ''en-US'',
            isAccuracyCheckEnabled := nullish (saved_isAccuracyCheckEnabled settings) True,
            practiceMode := or_truthy (saved_practiceMode settings) Dialogue,
            isRecordAndPlaybackEnabled :=
              nullish (saved_isRecordAndPlaybackEnabled settings) True,
            loopStartLine := or_string (saved_loopStartLine settings) [],
            loopEndLine := or_string (saved_loopEndLine settings) []\<rparr>)"

subsection \<open>The pronunciation map\<close>

text \<open>
  A \<open>Map\<close> keeps its keys in the order of their first insertion; \<open>set\<close> on a key
  that is present replaces its value in place.
\<close>

fun map_set :: "(string \<times> string) list \<Rightarrow> string \<Rightarrow> string \<Rightarrow> (string \<times> string) list" where
  "map_set [] k v = [(k, v)]"
| "map_set ((k', v') # m) k v =
     (if k' = k then (k, v) # m else (k', v') # map_set m k v)"

text \<open>The effect that rebuilds \<open>pronunciationMap\<close> when \<open>pronunciations\<close> changes.\<close>

definition pronunciationMapOf :: "string \<Rightarrow> (string \<times> string) list" where
  "pronunciationMapOf pronunciationText =
     foldl (\<lambda>newMap line.
              case split_on CHR ''='' line of
                first # second # others \<Rightarrow>
                  map_set newMap (trim first) (trim (join ''='' (second # others)))
              | _ \<Rightarrow> newMap)
       [] (filter (\<lambda>line. trim line \<noteq> []) (split_on CHR 0x0A pronunciationText))"

subsection \<open>The pronunciation rewrite of \<open>processLine\<close>\<close>

text \<open>
  \<open>new RegExp(`\\b${w}\\b`, 'gi')\<close> reads the key \<open>w\<close> as the source of a pattern.
  The embedding covers the keys whose characters are pattern characters or the dot:
  the pattern is then a sequence of atoms between two \<open>\<bslash>b\<close>. For a key with
  another syntax character of regular expressions \<open>patternAtoms\<close> is \<open>None\<close>: what
  such a pattern matches, or whether it is a pattern at all, is not modelled.
\<close>

datatype atom = Lit char | AnyChar

definition isSyntaxChar :: "char \<Rightarrow> bool" where
  "isSyntaxChar c = (c \<in> set ''^$.*+?()[]{}|'' \<or> c = CHR 0x5C)"

fun patternAtoms :: "string \<Rightarrow> atom list option" where
  "patternAtoms [] = Some []"
| "patternAtoms (c # cs) =
     (if c = CHR ''.'' then map_option ((#) AnyChar) (patternAtoms cs)
      else if isSyntaxChar c then None
      else map_option ((#) (Lit c)) (patternAtoms cs))"

text \<open>
  With the flag \<open>i\<close> two characters match when their upper-case forms are equal; the
  dot matches every character but a line terminator.
\<close>

definition atomMatches :: "atom \<Rightarrow> char \<Rightarrow> bool" where
  "atomMatches a c =
     (case a of
        Lit k \<Rightarrow> toUpperChar k = toUpperChar c
      | AnyChar \<Rightarrow> \<not> isLineTerminator c)"

text \<open>The atoms against the start of the text: the matched text and what is left.\<close>

fun atoms_match :: "atom list \<Rightarrow> string \<Rightarrow> (string \<times> string) option" where
  "atoms_match [] s = Some ([], s)"
| "atoms_match (a # as) [] = None"
| "atoms_match (a # as) (c # cs) =
     (if atomMatches a c then
        (case atoms_match as cs of
           None \<Rightarrow> None
         | Some (m, rest) \<Rightarrow> Some (c # m, rest))
      else None)"

text \<open>
  \<open>\<bslash>b\<close> holds between two characters of which exactly one is a word character; the
  ends of the text count as no word character. \<open>pre\<close> is the text before the
  position, the nearest character first.
\<close>

definition isWordAt :: "string \<Rightarrow> bool" where
  "isWordAt s = (case s of [] \<Rightarrow> False | c # _ \<Rightarrow> isWordChar c)"

definition wordBoundary :: "string \<Rightarrow> string \<Rightarrow> bool" where
  "wordBoundary pre s = (isWordAt pre \<noteq> isWordAt s)"

definition match_here :: "atom list \<Rightarrow> string \<Rightarrow> string \<Rightarrow> (string \<times> string) option" where
  "match_here pat pre s =
     (if wordBoundary pre s then
        (case atoms_match pat s of
           None \<Rightarrow> None
         | Some (m, rest) \<Rightarrow> if wordBoundary (rev m @ pre) rest then Some (m, rest) else None)
      else None)"

text \<open>
  The replacement text of a match of a pattern without groups: \<open>$$\<close> is a dollar,
  \<open>$&\<close> the matched text, \<open>$`\<close> the text before the match and \<open>$'\<close> the text
  after it; every other dollar stands for itself.
\<close>

fun expand :: "string \<Rightarrow> string \<Rightarrow> string \<Rightarrow> string \<Rightarrow> string" where
  "expand [] m pre suf = []"
| "expand [c] m pre suf = [c]"
| "expand (c # d # cs) m pre suf =
     (if c = CHR ''$'' then
        (if d = CHR ''$'' then CHR ''$'' # expand cs m pre suf
         else if d = CHR ''&'' then m @ expand cs m pre suf
         else if d = CHR 0x60 then pre @ expand cs m pre suf
         else if d = CHR 0x27 then suf @ expand cs m pre suf
         else c # expand (d # cs) m pre suf)
      else c # expand (d # cs) m pre suf)"

text \<open>
  \<open>text.replace(pattern, p)\<close> with the flag \<open>g\<close>: the matches are looked for from
  left to right, each search starting where the last match ended, and one character
  further after an empty match.
\<close>

function replaceAll :: "atom list \<Rightarrow> string \<Rightarrow> string \<Rightarrow> string \<Rightarrow> string" where
  "replaceAll pat p pre s =
     (case match_here pat pre s of
        None \<Rightarrow>
          (case s of
             [] \<Rightarrow> []
           | c # cs \<Rightarrow> c # replaceAll pat p (c # pre) cs)
      | Some (m, rest) \<Rightarrow>
          if m = [] then
            expand p m (rev pre) s @
              (case s of
                 [] \<Rightarrow> []
               | c # cs \<Rightarrow> c # replaceAll pat p (c # pre) cs)
          else expand p m (rev pre) rest @ replaceAll pat p (rev m @ pre) rest)"
  by pat_completeness auto
termination
proof -
  have split: "s = m @ rest" if "atoms_match pat s = Some (m, rest)" for pat s m rest
    using that
    by (induction pat s arbitrary: m rest rule: atoms_match.induct)
       (auto split: if_splits option.splits)
  show ?thesis
    by (relation "measure (\<lambda>(pat, p, pre, s). length s)")
       (auto simp: match_here_def split: if_splits option.splits dest!: split)
qed

declare replaceAll.simps [simp del]

definition replacePattern :: "string \<Rightarrow> string \<Rightarrow> string \<Rightarrow> string option" where
  "replacePattern w p dialogueToSpeak =
     (case patternAtoms w of
        None \<Rightarrow> None
      | Some pat \<Rightarrow> Some (replaceAll pat p [] dialogueToSpeak))"

text \<open>\<open>pronunciationMap.forEach((p, w) => ...)\<close>: the entries in the order of the map.\<close>

fun substitutePronunciations :: "(string \<times> string) list \<Rightarrow> string \<Rightarrow> string option" where
  "substitutePronunciations [] dialogueToSpeak = Some dialogueToSpeak"
| "substitutePronunciations ((w, p) # pronunciationMap) dialogueToSpeak =
     (case replacePattern w p dialogueToSpeak of
        None \<Rightarrow> None
      | Some replaced \<Rightarrow> substitutePronunciations pronunciationMap replaced)"

subsection \<open>Whole-word replacement, as the specification words it\<close>

text \<open>
  The words of a text are its maximal runs of word characters; every other character
  stands alone.
\<close>

function tokens :: "string \<Rightarrow> string list" where
  "tokens [] = []"
| "tokens (c # cs) =
     (if isWordChar c then (c # takeWhile isWordChar cs) # tokens (dropWhile isWordChar cs)
      else [c] # tokens cs)"
  by pat_completeness auto
termination
  by (relation "measure length") (auto simp: length_dropWhile_le less_Suc_eq_le)

definition sameWord :: "string \<Rightarrow> string \<Rightarrow> bool" where
  "sameWord a b = (toUpperCase a = toUpperCase b)"

definition replaceWholeWords :: "string \<Rightarrow> string \<Rightarrow> string \<Rightarrow> string" where
  "replaceWholeWords k v s = concat (map (\<lambda>t. if sameWord t k then v else t) (tokens s))"

text \<open>A map whose keys are words and whose values hold no dollar.\<close>

definition plainEntry :: "string \<times> string \<Rightarrow> bool" where
  "plainEntry e = (fst e \<noteq> [] \<and> list_all isWordChar (fst e) \<and> CHR ''$'' \<notin> set (snd e))"

subsection \<open>Properties of the scoring loop\<close>

lemma map_word_update:
  "map word (r[i := (r ! i)\<lparr>status := s\<rparr>]) = map word r"
  by (cases "i < length r") (simp_all add: map_update list_update_same_conv list_update_beyond)

lemma accuracy_loop_length:
  "length (accuracy_loop tw i t r) = length r"
proof (induction tw i t r rule: accuracy_loop.induct)
  case (1 tw i t r)
  then show ?case
    by (subst accuracy_loop.simps) auto
qed

lemma accuracy_loop_word:
  "map word (accuracy_loop tw i t r) = map word r"
proof (induction tw i t r rule: accuracy_loop.induct)
  case (1 tw i t r)
  then show ?case
    by (subst accuracy_loop.simps) (auto simp: map_word_update)
qed

lemma accuracy_loop_before:
  "j < i \<Longrightarrow> accuracy_loop tw i t r ! j = r ! j"
proof (induction tw i t r rule: accuracy_loop.induct)
  case (1 tw i t r)
  then show ?case
    by (subst accuracy_loop.simps) auto
qed

lemma accuracy_loop_status:
  "i \<le> j \<Longrightarrow> j < length r \<Longrightarrow> status (accuracy_loop tw i t r ! j) \<noteq> Missing"
proof (induction tw i t r rule: accuracy_loop.induct)
  case (1 tw i t r)
  show ?case
  proof (cases "i = j")
    case True
    with 1 show ?thesis
      by (subst accuracy_loop.simps) (simp add: accuracy_loop_before)
  next
    case False
    with 1 show ?thesis
      by (subst accuracy_loop.simps) auto
  qed
qed

text \<open>
  C2. For every expected line and transcript the report has exactly one entry for each
  normalized expected word, in order, and every status is \<open>Correct\<close> or
  \<open>Incorrect\<close>: \<open>Missing\<close> is never returned.
\<close>

theorem calculateAccuracy_no_missing:
  "map word (calculateAccuracy expected heard) = normalizeWords expected
   \<and> length (calculateAccuracy expected heard) = length (normalizeWords expected)
   \<and> set (map status (calculateAccuracy expected heard)) \<subseteq> {Correct, Incorrect}"
proof -
  let ?r = "map (\<lambda>w. \<lparr>word = w, status = Missing\<rparr>) (normalizeWords expected)"
  let ?out = "accuracy_loop (normalizeWords heard) 0 0 ?r"
  have out: "calculateAccuracy expected heard = ?out"
    by (simp add: calculateAccuracy_def Let_def)
  have words: "map word ?out = normalizeWords expected"
    by (simp add: accuracy_loop_word comp_def)
  have len: "length ?out = length (normalizeWords expected)"
    by (simp add: accuracy_loop_length)
  have "status e \<noteq> Missing" if "e \<in> set ?out" for e
  proof -
    from that obtain j where j: "j < length ?out" "e = ?out ! j"
      by (auto simp: in_set_conv_nth)
    then have "j < length ?r"
      by (simp add: accuracy_loop_length)
    then show ?thesis
      unfolding j(2) by (intro accuracy_loop_status) simp_all
  qed
  then have "set (map status ?out) \<subseteq> {Correct, Incorrect}"
    by (auto intro: word_status.exhaust)
  with words len show ?thesis
    unfolding out by simp
qed

text \<open>
  C3, as the code computes it. After the fifth expected word fails against \<open>too\<close>
  the transcript cursor stays on \<open>too\<close>, so the sixth expected word \<open>be\<close> is compared
  with \<open>too\<close> as well and is marked \<open>Incorrect\<close>.
\<close>

theorem calculateAccuracy_to_be:
  "calculateAccuracy ''To be or not to be'' ''to be or not too be'' =
     [\<lparr>word = ''to'', status = Correct\<rparr>, \<lparr>word = ''be'', status = Correct\<rparr>,
      \<lparr>word = ''or'', status = Correct\<rparr>, \<lparr>word = ''not'', status = Correct\<rparr>,
      \<lparr>word = ''to'', status = Incorrect\<rparr>, \<lparr>word = ''be'', status = Incorrect\<rparr>]"
  by code_simp

text \<open>
  C3, as the specification states it: the statuses
  \<open>[correct, correct, correct, correct, incorrect, correct]\<close> are not what is returned.
\<close>

theorem calculateAccuracy_to_be_counterexample:
  "map status (calculateAccuracy ''To be or not to be'' ''to be or not too be'') \<noteq>
     [Correct, Correct, Correct, Correct, Incorrect, Correct]"
  by code_simp

subsection \<open>Reading a decimal numeral back\<close>










subsection \<open>The cursor\<close>

lemma advanceLine_next_absent:
  "loopStart = [] \<or> loopEnd = [] \<Longrightarrow>
   advanceLine_next loopStart loopEnd (Some prev) = Some (prev + 1)"
  by (auto simp: advanceLine_next_def num_ge_def num_gt_def num_minus_def num_plus_def Let_def
           split: option.splits)







subsection \<open>Errors of the recognition provider\<close>

text \<open>
  C9. When the provider reports an error other than \<open>aborted\<close> in a listening turn of a
  running practice session, \<open>onerror\<close> sets the status message and changes nothing
  else; the \<open>end\<close> event that closes the recognition then schedules \<open>advanceLine\<close>
  as after any listening turn, and when the timer fires the cursor advances. The
  session is still practising.
\<close>

theorem recognition_error_still_advances:
  assumes "error \<noteq> ''aborted''" and "isPracticing s"
  shows "statusText (onerror error s) = ''Sorry, I didn'' @ [CHR 0x27] @ ''t catch that.''
    \<and> onerror error s = s\<lparr>statusText := statusText (onerror error s)\<rparr>
    \<and> advanceTimers (onend (isPracticing s) (onerror error s)) = advanceTimers s + 1
    \<and> \<not> recorderRecording (onend (isPracticing s) (onerror error s))
    \<and> currentLineIndex (timerFires (onend (isPracticing s) (onerror error s))) =
        advanceLine_next (loopStartLine s) (loopEndLine s) (currentLineIndex s)
    \<and> isPracticing (timerFires (onend (isPracticing s) (onerror error s)))
    \<and> statusText (timerFires (onend (isPracticing s) (onerror error s))) =
        ''Sorry, I didn'' @ [CHR 0x27] @ ''t catch that.''"
  using assms
  by (simp add: onerror_def onend_def timerFires_def advanceLine_def Let_def)

theorem recognition_error_still_advances_witness:
  "statusText (onerror ''no-speech'' (initialState\<lparr>isPracticing := True\<rparr>)) =
     ''Sorry, I didn'' @ [CHR 0x27] @ ''t catch that.''
   \<and> currentLineIndex (timerFires (onend True
        (onerror ''no-speech'' (initialState\<lparr>isPracticing := True\<rparr>)))) = Some 1"
proof -
  have e: "''no-speech'' \<noteq> ''aborted''"
    by simp
  have p: "isPracticing (initialState\<lparr>isPracticing := True\<rparr>)"
    by simp
  have n: "advanceLine_next [] [] (Some 0) = Some 1"
    by (simp add: advanceLine_next_absent)
  from recognition_error_still_advances [OF e p] show ?thesis
    by (simp add: initialState_def n)
qed

subsection \<open>The matcher returns what its continuation returns\<close>

lemma greedy_star_result:
  "greedy_star P k acc s = Some r \<Longrightarrow> \<exists>m rest. k m rest = Some r"
  by (induction s arbitrary: acc) (auto split: if_splits option.splits)

lemma lazy_star_result:
  "lazy_star P k acc s = Some r \<Longrightarrow> \<exists>m rest. k m rest = Some r"
  by (induction s arbitrary: acc) (auto split: if_splits option.splits)

lemma lit_result:
  "lit x k s = Some r \<Longrightarrow> \<exists>rest. k rest = Some r"
  by (auto simp: lit_def split: list.splits if_splits)

lemma greedy_plus_result:
  "greedy_plus P k s = Some r \<Longrightarrow> \<exists>m rest. k m rest = Some r"
  by (auto simp: greedy_plus_def split: list.splits if_splits dest: greedy_star_result)

lemma tail_match_groups:
  assumes "tail_match m1 m2 s = Some g"
  shows "\<exists>m3. g = (m1, m2, Some m3)"
proof -
  from greedy_star_result [OF assms [unfolded tail_match_def]]
  show ?thesis by (auto split: if_splits)
qed

lemma direction_group_groups:
  assumes "direction_group m1 s = Some g"
  shows "\<exists>m2 m3. g = (m1, Some m2, Some m3)"
proof -
  from lit_result [OF assms [unfolded direction_group_def]]
  obtain s1 where "lazy_star (\<lambda>c. \<not> isLineTerminator c)
       (\<lambda>m2. lit CHR '')'' (greedy_star isSpace (\<lambda>_. tail_match m1 (Some m2)) [])) [] s1 = Some g"
    by blast
  from lazy_star_result [OF this]
  obtain m2 s2 where "lit CHR '')'' (greedy_star isSpace (\<lambda>_. tail_match m1 (Some m2)) []) s2 = Some g"
    by blast
  from lit_result [OF this]
  obtain s3 where "greedy_star isSpace (\<lambda>_. tail_match m1 (Some m2)) [] s3 = Some g"
    by blast
  from greedy_star_result [OF this]
  obtain s4 where "tail_match m1 (Some m2) s4 = Some g"
    by blast
  from tail_match_groups [OF this] show ?thesis
    by blast
qed

lemma lineRegex_groups:
  assumes "lineRegex line = Some g"
  shows "\<exists>m1 m2 m3. g = (Some m1, m2, Some m3)"
proof -
  from greedy_plus_result [OF assms [unfolded lineRegex_def]]
  obtain m1 s1 where "lit CHR '':''
          (greedy_star isSpace
             (\<lambda>_ s. case direction_group (Some m1) s of
                       Some r \<Rightarrow> Some r
                     | None \<Rightarrow> tail_match (Some m1) None s) []) s1 = Some g"
    by blast
  from lit_result [OF this]
  obtain s2 where "greedy_star isSpace
             (\<lambda>_ s. case direction_group (Some m1) s of
                       Some r \<Rightarrow> Some r
                     | None \<Rightarrow> tail_match (Some m1) None s) [] s2 = Some g"
    by blast
  from greedy_star_result [OF this]
  obtain s3 where "(case direction_group (Some m1) s3 of
                       Some r \<Rightarrow> Some r
                     | None \<Rightarrow> tail_match (Some m1) None s3) = Some g"
    by blast
  then show ?thesis
    by (auto split: option.splits dest: direction_group_groups tail_match_groups)
qed

subsection \<open>Parsing never throws\<close>

lemma split_on_nonempty:
  "split_on sep s \<noteq> []"
  by (induction s) (auto split: list.splits)

lemma parseLine_total:
  "\<exists>entry. parseLine line = Inr entry"
proof (cases "lineRegex line")
  case None
  then show ?thesis
    using split_on_nonempty [of "CHR '':''" line]
    by (auto simp: parseLine_def split: list.splits)
next
  case (Some g)
  from lineRegex_groups [OF this] show ?thesis
    by (auto simp: parseLine_def Some)
qed

lemma map_throwing_total:
  assumes "\<And>x. \<exists>y. f x = Inr y"
  shows "\<exists>ys. map_throwing f xs = Inr ys \<and> list_all2 (\<lambda>x y. f x = Inr y) xs ys"
proof (induction xs)
  case Nil
  show ?case by simp
next
  case (Cons x xs)
  from assms obtain y where "f x = Inr y" by blast
  with Cons show ?case by auto
qed

lemma parsedLines_total:
  "\<exists>entries. parsedLines scriptText = Inr entries
     \<and> list_all2 (\<lambda>line entry. parseLine line = Inr entry) (colonLines scriptText) entries"
proof -
  from map_throwing_total [of parseLine "colonLines scriptText"] parseLine_total
  obtain ys where "map_throwing parseLine (colonLines scriptText) = Inr ys"
    "list_all2 (\<lambda>x y. parseLine x = Inr y) (colonLines scriptText) ys"
    by blast
  then show ?thesis
    by (simp add: parsedLines_def truthy_def)
qed

subsection \<open>The roster\<close>

lemma remdups_snoc:
  "remdups (zs @ [x]) = remdups (filter (\<lambda>y. y \<noteq> x) zs) @ [x]"
  by (induction zs) auto

lemma foldl_set_insert:
  "foldl (\<lambda>acc x. if x \<in> set acc then acc else acc @ [x]) acc xs =
     acc @ rev (remdups (rev (filter (\<lambda>x. x \<notin> set acc) xs)))"
proof (induction xs arbitrary: acc)
  case Nil
  show ?case by simp
next
  case (Cons x xs)
  show ?case
  proof (cases "x \<in> set acc")
    case True
    then show ?thesis
      by (simp add: Cons)
  next
    case False
    let ?ys = "filter (\<lambda>y. y \<notin> set acc) xs"
    have "remdups (rev ?ys @ [x]) = remdups (filter (\<lambda>y. y \<noteq> x) (rev ?ys)) @ [x]"
      by (rule remdups_snoc)
    then have a: "rev (remdups (rev (x # ?ys))) =
        x # rev (remdups (rev (filter (\<lambda>y. y \<noteq> x) ?ys)))"
      by (simp add: rev_filter)
    have b: "filter (\<lambda>y. y \<noteq> x) ?ys = filter (\<lambda>y. y \<notin> set (acc @ [x])) xs"
      by (induction xs) auto
    have "foldl (\<lambda>acc x. if x \<in> set acc then acc else acc @ [x]) acc (x # xs) =
        (acc @ [x]) @ rev (remdups (rev (filter (\<lambda>y. y \<notin> set (acc @ [x])) xs)))"
      using False by (simp only: foldl_Cons if_False Cons)
    also have "\<dots> = acc @ rev (remdups (rev (x # ?ys)))"
      unfolding a b by simp
    also have "x # ?ys = filter (\<lambda>y. y \<notin> set acc) (x # xs)"
      using False by simp
    finally show ?thesis .
  qed
qed

lemma arrayFromSet_first_appearance:
  "arrayFromSet xs = rev (remdups (rev xs))"
  by (simp add: arrayFromSet_def foldl_set_insert)

lemma scriptEffect_total:
  "\<exists>s'. scriptEffect s = Inr s'
     \<and> list_all2 (\<lambda>line entry. parseLine line = Inr entry) (colonLines (script s)) (lines s')
     \<and> characters s' = arrayFromSet (map character (lines s'))
     \<and> selectedCharacter s' =
         (if characters s' = [] then []
          else if selectedCharacter s \<in> set (characters s') then selectedCharacter s
          else hd (characters s'))"
proof -
  from parsedLines_total [of "script s"] obtain entries where
    "parsedLines (script s) = Inr entries"
    "list_all2 (\<lambda>line entry. parseLine line = Inr entry) (colonLines (script s)) entries"
    by blast
  then show ?thesis
    by (simp add: scriptEffect_def Let_def)
qed

text \<open>
  C1. Parsing never throws. The parsed lines are, in order, one entry for each trimmed
  line that contains a colon, and nothing else; the roster is the characters of the
  entries without repetition, each at the place of its first appearance.
\<close>

theorem scriptEffect_one_entry_per_colon_line:
  "\<exists>s'. scriptEffect s = Inr s'
     \<and> list_all2 (\<lambda>line entry. parseLine line = Inr entry)
          (filter (\<lambda>line. CHR '':'' \<in> set line) (map trim (split_on CHR 0x0A (script s))))
          (lines s')
     \<and> length (lines s') =
          length (filter (\<lambda>line. CHR '':'' \<in> set line) (map trim (split_on CHR 0x0A (script s))))
     \<and> characters s' = rev (remdups (rev (map character (lines s'))))
     \<and> distinct (characters s')
     \<and> set (characters s') = set (map character (lines s'))"
proof -
  from scriptEffect_total [of s] obtain s' where s':
    "scriptEffect s = Inr s'"
    "list_all2 (\<lambda>line entry. parseLine line = Inr entry) (colonLines (script s)) (lines s')"
    "characters s' = arrayFromSet (map character (lines s'))"
    by blast
  from s'(2) have "length (lines s') = length (colonLines (script s))"
    by (simp add: list_all2_lengthD)
  with s' show ?thesis
    by (auto simp: colonLines_def arrayFromSet_first_appearance)
qed

text \<open>
  C10. After the effect has run, the selected character is the first of the roster
  when the roster is not empty and does not contain the previous selection, the empty
  string when the roster is empty, and the previous selection otherwise: it is in the
  roster whenever the roster is not empty.
\<close>

theorem scriptEffect_selection_in_roster:
  "\<exists>s'. scriptEffect s = Inr s'
     \<and> (characters s' \<noteq> [] \<and> selectedCharacter s \<notin> set (characters s') \<longrightarrow>
          selectedCharacter s' = hd (characters s'))
     \<and> (characters s' = [] \<longrightarrow> selectedCharacter s' = [])
     \<and> (characters s' \<noteq> [] \<and> selectedCharacter s \<in> set (characters s') \<longrightarrow>
          selectedCharacter s' = selectedCharacter s)
     \<and> (characters s' \<noteq> [] \<longrightarrow> selectedCharacter s' \<in> set (characters s'))"
proof -
  from scriptEffect_total [of s] obtain s' where
    "scriptEffect s = Inr s'"
    "selectedCharacter s' =
         (if characters s' = [] then []
          else if selectedCharacter s \<in> set (characters s') then selectedCharacter s
          else hd (characters s'))"
    by blast
  then show ?thesis
    by (intro exI [of _ s']) auto
qed


theorem scriptEffect_selection_in_roster_witness:
  "\<exists>s'. scriptEffect (initialState\<lparr>script := ''ANN: Hi'' @ [CHR 0x0A] @ ''Bob: (waving) Hello'',
            selectedCharacter := ''CAROL''\<rparr>) = Inr s'
     \<and> characters s' = [''ANN'', ''BOB''] \<and> selectedCharacter s' = ''ANN''"
proof -
  let ?s = "initialState\<lparr>script := ''ANN: Hi'' @ [CHR 0x0A] @ ''Bob: (waving) Hello'',
            selectedCharacter := ''CAROL''\<rparr>"
  have run: "map_sum id characters (scriptEffect ?s) = Inr [''ANN'', ''BOB'']"
    by code_simp
  from scriptEffect_selection_in_roster [of ?s] obtain s' where s':
    "scriptEffect ?s = Inr s'"
    "characters s' \<noteq> [] \<and> selectedCharacter ?s \<notin> set (characters s') \<longrightarrow>
       selectedCharacter s' = hd (characters s')"
    by blast
  from run s'(1) have "characters s' = [''ANN'', ''BOB'']"
    by simp
  with s' show ?thesis
    by (intro exI [of _ s']) simp
qed

subsection \<open>Lines that match the pattern\<close>

lemma greedy_star_max:
  assumes "list_all P xs" and "ys = [] \<or> \<not> P (hd ys)" and "k (rev acc @ xs) ys = Some r"
  shows "greedy_star P k acc (xs @ ys) = Some r"
  using assms
proof (induction xs arbitrary: acc)
  case Nil
  then show ?case by (cases ys) auto
next
  case (Cons x xs)
  from Cons.prems have "greedy_star P k (x # acc) (xs @ ys) = Some r"
    by (intro Cons.IH) simp_all
  with Cons.prems show ?case by simp
qed

lemma lazy_star_first:
  assumes "list_all P xs" and "\<And>m c rest. c \<in> set xs \<Longrightarrow> k m (c # rest) = None"
    and "k (rev acc @ xs) ys = Some r"
  shows "lazy_star P k acc (xs @ ys) = Some r"
  using assms
proof (induction xs arbitrary: acc)
  case Nil
  then show ?case by (cases ys) auto
next
  case (Cons x xs)
  from Cons.prems have "lazy_star P k (x # acc) (xs @ ys) = Some r"
    by (intro Cons.IH) simp_all
  with Cons.prems show ?case by simp
qed

lemma tail_match_no_terminator:
  assumes "list_all (\<lambda>c. \<not> isLineTerminator c) d"
  shows "tail_match m1 m2 d = Some (m1, m2, Some d)"
  using greedy_star_max [of "\<lambda>c. \<not> isLineTerminator c" d "[]"
      "\<lambda>m3 rest. if rest = [] then Some (m1, m2, Some m3) else None" "[]"] assms
  by (simp add: tail_match_def)

lemma char_class_facts:
  "\<not> isNameChar CHR '':''" "\<not> isSpace CHR ''(''"
  by (simp_all add: isNameChar_def isUpper_def isDigit_def isSpace_def code_def)

lemma lineRegex_structured:
  assumes tok: "tok \<noteq> []" "list_all isNameChar tok"
    and ws: "list_all isSpace ws1" "list_all isSpace ws2"
    and dir: "CHR '')'' \<notin> set dir" "list_all (\<lambda>c. \<not> isLineTerminator c) dir"
    and dlg: "list_all (\<lambda>c. \<not> isLineTerminator c) dlg"
  shows "lineRegex (tok @ CHR '':'' # ws1 @ CHR ''('' # dir @ CHR '')'' # ws2 @ dlg) =
    Some (Some tok, Some dir, Some (dropWhile isSpace dlg))"
proof -
  let ?G = "(Some tok, Some dir, Some (dropWhile isSpace dlg))"
  let ?d = "dropWhile isSpace dlg"
  let ?w = "ws2 @ takeWhile isSpace dlg"
  let ?dot = "\<lambda>c. \<not> isLineTerminator c"
  let ?k2 = "\<lambda>m2. lit CHR '')'' (greedy_star isSpace (\<lambda>_. tail_match (Some tok) (Some m2)) [])"
  let ?k1 = "\<lambda>(_::string) s. case direction_group (Some tok) s of
                       Some r \<Rightarrow> Some r
                     | None \<Rightarrow> tail_match (Some tok) None s"
  have split: "ws2 @ dlg = ?w @ ?d"
    by simp
  have w: "list_all isSpace ?w"
    using ws(2) by (auto simp: list_all_iff dest: set_takeWhileD)
  have d_hd: "?d = [] \<or> \<not> isSpace (hd ?d)"
    using hd_dropWhile [of isSpace dlg] by blast
  have "list_all ?dot ?d"
    using dlg by (auto simp: list_all_iff dest: set_dropWhileD)
  then have t: "tail_match (Some tok) (Some dir) ?d = Some ?G"
    by (rule tail_match_no_terminator)
  have g2: "greedy_star isSpace (\<lambda>_. tail_match (Some tok) (Some dir)) [] (ws2 @ dlg) = Some ?G"
    unfolding split using w d_hd t by (intro greedy_star_max) simp_all
  have lz: "lazy_star ?dot ?k2 [] (dir @ CHR '')'' # ws2 @ dlg) = Some ?G"
  proof (rule lazy_star_first [OF dir(2)])
    fix m c rest
    assume "c \<in> set dir"
    with dir(1) have "c \<noteq> CHR '')''" by auto
    then show "?k2 m (c # rest) = None"
      by (simp add: lit_def)
  next
    show "?k2 (rev [] @ dir) (CHR '')'' # ws2 @ dlg) = Some ?G"
      using g2 by (simp add: lit_def)
  qed
  then have dg: "direction_group (Some tok) (CHR ''('' # dir @ CHR '')'' # ws2 @ dlg) = Some ?G"
    by (simp add: direction_group_def lit_def)
  have g1: "greedy_star isSpace ?k1 [] (ws1 @ CHR ''('' # dir @ CHR '')'' # ws2 @ dlg) = Some ?G"
    using ws(1) dg char_class_facts(2) by (intro greedy_star_max) simp_all
  let ?K = "\<lambda>m1. lit CHR '':''
          (greedy_star isSpace
             (\<lambda>_ s. case direction_group (Some m1) s of
                       Some r \<Rightarrow> Some r
                     | None \<Rightarrow> tail_match (Some m1) None s) [])"
  let ?R = "CHR '':'' # ws1 @ CHR ''('' # dir @ CHR '')'' # ws2 @ dlg"
  have k: "?K tok ?R = Some ?G"
    using g1 by (simp add: lit_def)
  from tok obtain c cs where tok_eq: "tok = c # cs"
    by (cases tok) auto
  have c: "isNameChar c" and cs: "list_all isNameChar cs"
    using tok(2) by (simp_all add: tok_eq)
  have "?K (rev [c] @ cs) ?R = Some ?G"
    using k by (simp only: tok_eq rev.simps append.simps)
  with cs have "greedy_star isNameChar ?K [c] (cs @ ?R) = Some ?G"
    using char_class_facts(1) by (intro greedy_star_max) simp_all
  moreover have "lineRegex (tok @ ?R) = greedy_star isNameChar ?K [c] (cs @ ?R)"
    using c by (simp add: lineRegex_def greedy_plus_def tok_eq)
  ultimately show ?thesis
    by simp
qed

lemma trim_dropWhile:
  "trim (dropWhile isSpace s) = trim s"
  by (simp add: trim_def)

text \<open>
  C7, amended. A line \<open>TOKEN: (direction) dialogue\<close> whose token is made of upper-case
  letters, digits, white space, underscore, apostrophe and hyphen matches the pattern:
  the character is the token trimmed and upper-cased, the direction is the text in the
  parentheses, the dialogue is the text after them. (The direction holds no closing
  parenthesis, and neither it nor the dialogue a carriage return.)
\<close>

theorem parseLine_structured:
  assumes "tok \<noteq> []" and "list_all isNameChar tok"
    and "list_all isSpace ws1" and "list_all isSpace ws2"
    and "CHR '')'' \<notin> set dir" and "list_all (\<lambda>c. \<not> isLineTerminator c) dir"
    and "list_all (\<lambda>c. \<not> isLineTerminator c) dlg"
  shows "lineRegex (tok @ CHR '':'' # ws1 @ CHR ''('' # dir @ CHR '')'' # ws2 @ dlg) \<noteq> None
    \<and> parseLine (tok @ CHR '':'' # ws1 @ CHR ''('' # dir @ CHR '')'' # ws2 @ dlg) =
        Inr \<lparr>character = toUpperCase (trim tok), dialogue = trim dlg, direction = trim dir\<rparr>"
  using lineRegex_structured [OF assms]
  by (simp add: parseLine_def trim_dropWhile)

theorem parseLine_structured_witness:
  "parseLine ''HAMLET: (To himself) To be, or not to be...'' =
     Inr \<lparr>character = ''HAMLET'', dialogue = ''To be, or not to be...'',
          direction = ''To himself''\<rparr>"
proof -
  have h: "''HAMLET'' \<noteq> []" "list_all isNameChar ''HAMLET''" "list_all isSpace '' ''"
    "CHR '')'' \<notin> set ''To himself''"
    "list_all (\<lambda>c. \<not> isLineTerminator c) ''To himself''"
    "list_all (\<lambda>c. \<not> isLineTerminator c) ''To be, or not to be...''"
    by code_simp+
  have v: "toUpperCase (trim ''HAMLET'') = ''HAMLET''"
    "trim ''To be, or not to be...'' = ''To be, or not to be...''"
    "trim ''To himself'' = ''To himself''"
    by code_simp+
  from parseLine_structured [OF h(1,2,3,3,4,5,6)] show ?thesis
    unfolding v by simp
qed

text \<open>
  C7, as the specification states it, fails: the pattern has no \<open>i\<close> flag, so a token
  with a lower-case letter does not match it. The line is parsed by the branch for
  lines without a match, which leaves the parenthesis in the dialogue.
\<close>

theorem parseLine_lowercase_counterexample:
  "lineRegex ''Bob: (smiling) Hi there'' = None
   \<and> parseLine ''Bob: (smiling) Hi there'' =
       Inr \<lparr>character = ''BOB'', dialogue = ''(smiling) Hi there'', direction = []\<rparr>
   \<and> parseLine ''Bob: (smiling) Hi there'' \<noteq>
       Inr \<lparr>character = ''BOB'', dialogue = ''Hi there'', direction = ''smiling''\<rparr>"
  by code_simp


subsection \<open>Saving and loading the settings\<close>

lemma settings_restored_when_truthy:
  assumes "speechRate s \<noteq> 0" and "pitch s \<noteq> 0" and "volume s \<noteq> 0" and "selectedLang s \<noteq> []"
  shows "saveSettings (loadSettings (Some (saveSettings s)) s0) = saveSettings s"
  using assms
  by (simp add: saveSettings_def loadSettings_def or_string_def or_number_def
        or_truthy_def nullish_def)

text \<open>
  C6 fails on the code. The sliders for pitch and volume start at 0, and a saved 0 is
  falsy: \<open>settings.pitch || 1\<close> and \<open>settings.volume || 1\<close> load it as 1. The two
  toggles are loaded with \<open>??\<close>, which keeps a saved \<open>false\<close>.
\<close>

theorem settings_zero_volume_lost:
  "volume (loadSettings (Some (saveSettings (initialState\<lparr>volume := 0\<rparr>))) initialState) = 1
   \<and> volume (initialState\<lparr>volume := 0\<rparr>) = 0
   \<and> pitch (loadSettings (Some (saveSettings (initialState\<lparr>pitch := 0\<rparr>))) initialState) = 1
   \<and> isAccuracyCheckEnabled (loadSettings
        (Some (saveSettings (initialState\<lparr>isAccuracyCheckEnabled := False\<rparr>))) initialState) = False"
  by (simp add: saveSettings_def loadSettings_def or_string_def or_number_def
        or_truthy_def nullish_def)

subsection \<open>Word characters and case\<close>

lemma isWordChar_toUpperChar:
  "isWordChar (toUpperChar c) = isWordChar c"
  by (auto simp: isWordChar_def toUpperChar_def isUpper_def isLower_def isDigit_def
        code_def Let_def)

lemma word_differs_from_nonword:
  assumes "isWordChar a" and "\<not> isWordChar c"
  shows "toUpperChar a \<noteq> toUpperChar c"
  using assms isWordChar_toUpperChar [of a] isWordChar_toUpperChar [of c] by auto

lemma word_is_pattern_char:
  assumes "isWordChar c"
  shows "c \<noteq> CHR ''.''" and "\<not> isSyntaxChar c"
  using assms
  by (auto simp: isWordChar_def isSyntaxChar_def isUpper_def isLower_def isDigit_def
        code_def Let_def)

lemma patternAtoms_word:
  "list_all isWordChar k \<Longrightarrow> patternAtoms k = Some (map Lit k)"
  by (induction k) (simp_all add: word_is_pattern_char)

lemma expand_no_dollar:
  "CHR ''$'' \<notin> set p \<Longrightarrow> expand p m pre suf = p"
  by (induction p m pre suf rule: expand.induct) auto

subsection \<open>A literal key at the start of a word\<close>

lemma isWordAt_append:
  "isWordAt (u @ s) = (if u = [] then isWordAt s else isWordChar (hd u))"
  by (cases u) (simp_all add: isWordAt_def)

lemma sameWord_Cons:
  "sameWord (x # xs) (y # ys) = (toUpperChar x = toUpperChar y \<and> sameWord xs ys)"
  "sameWord [] ys = (ys = [])" "sameWord xs [] = (xs = [])"
  by (auto simp: sameWord_def toUpperCase_def)

lemma sameWord_length:
  "sameWord a b \<Longrightarrow> length a = length b"
  by (auto simp: sameWord_def toUpperCase_def dest: map_eq_imp_length_eq)

lemma atoms_match_literal:
  assumes "list_all isWordChar k" and "list_all isWordChar w" and "\<not> isWordAt rest"
  shows "atoms_match (map Lit k) (w @ rest) =
    (if length k \<le> length w \<and> sameWord (take (length k) w) k
     then Some (take (length k) w, drop (length k) w @ rest) else None)"
  using assms
proof (induction k arbitrary: w)
  case Nil
  show ?case by (simp add: sameWord_Cons)
next
  case (Cons a k)
  show ?case
  proof (cases w)
    case Nil
    show ?thesis
    proof (cases rest)
      case Nil
      then show ?thesis by (simp add: \<open>w = []\<close>)
    next
      case (Cons r rs)
      with Cons.prems have "\<not> isWordChar r" "isWordChar a"
        by (simp_all add: isWordAt_def)
      then have "toUpperChar a \<noteq> toUpperChar r"
        by (intro word_differs_from_nonword)
      then show ?thesis
        by (simp add: \<open>w = []\<close> Cons atomMatches_def)
    qed
  next
    case (Cons x w')
    with Cons.prems Cons.IH [of w'] show ?thesis
      by (simp add: atomMatches_def sameWord_Cons)
  qed
qed

lemma match_here_word:
  assumes k: "k \<noteq> []" "list_all isWordChar k"
    and w: "w \<noteq> []" "list_all isWordChar w"
    and pre: "\<not> isWordAt pre" and rest: "\<not> isWordAt rest"
  shows "match_here (map Lit k) pre (w @ rest) = (if sameWord w k then Some (w, rest) else None)"
proof -
  have start: "wordBoundary pre (w @ rest)"
    using w pre by (cases w) (simp_all add: wordBoundary_def isWordAt_def)
  show ?thesis
  proof (cases "length k \<le> length w \<and> sameWord (take (length k) w) k")
    case False
    have "\<not> sameWord w k"
    proof
      assume sw: "sameWord w k"
      then have "take (length k) w = w"
        using sameWord_length [OF sw] by simp
      with sw False show False
        using sameWord_length [OF sw] by simp
    qed
    with False start show ?thesis
      by (simp add: match_here_def atoms_match_literal [OF k(2) w(2) rest])
  next
    case True
    let ?m = "take (length k) w"
    have m: "?m \<noteq> []" "list_all isWordChar ?m"
      using k(1) w True by (auto simp: list_all_iff dest: in_set_takeD)
    then have "isWordChar (last ?m)"
      by (simp add: list_all_iff)
    then have before: "isWordAt (rev ?m @ pre)"
      using m(1) by (simp add: isWordAt_append hd_rev)
    have after: "isWordAt (drop (length k) w @ rest) = (length k < length w)"
    proof (cases "length k < length w")
      case True
      then have "drop (length k) w \<noteq> []" by simp
      moreover from this have "hd (drop (length k) w) \<in> set w"
        by (meson hd_in_set in_set_dropD)
      ultimately show ?thesis
        using w(2) True by (simp add: isWordAt_append list_all_iff)
    next
      case False
      with rest show ?thesis by simp
    qed
    have "sameWord w k = (length k = length w)"
      using True by (auto dest: sameWord_length)
    with True start before after show ?thesis
      by (auto simp: match_here_def atoms_match_literal [OF k(2) w(2) rest] wordBoundary_def)
  qed
qed

lemma match_here_nonword:
  assumes "k \<noteq> []" and "list_all isWordChar k" and "\<not> isWordChar c"
  shows "match_here (map Lit k) pre (c # cs) = None"
proof -
  from assms obtain a k' where "k = a # k'" "isWordChar a"
    by (cases k) auto
  with assms(3) word_differs_from_nonword [of a c] show ?thesis
    by (simp add: match_here_def atomMatches_def)
qed

subsection \<open>The scan against whole-word replacement\<close>

lemma replaceAll_inside_word:
  assumes "isWordAt pre" and "list_all isWordChar u"
  shows "replaceAll pat p pre (u @ rest) = u @ replaceAll pat p (rev u @ pre) rest"
  using assms
proof (induction u arbitrary: pre)
  case Nil
  show ?case by simp
next
  case (Cons x u)
  then have "match_here pat pre (x # u @ rest) = None"
    by (simp add: match_here_def wordBoundary_def isWordAt_def)
  moreover have "replaceAll pat p (x # pre) (u @ rest) = u @ replaceAll pat p (rev u @ x # pre) rest"
    using Cons.prems by (intro Cons.IH) (simp_all add: isWordAt_def)
  ultimately show ?case
    by (subst replaceAll.simps) simp
qed

lemma tokens_word:
  assumes "isWordChar c"
  shows "replaceWholeWords k v (c # cs) =
    (if sameWord (c # takeWhile isWordChar cs) k then v else c # takeWhile isWordChar cs)
      @ replaceWholeWords k v (dropWhile isWordChar cs)"
  using assms by (simp add: replaceWholeWords_def)

lemma tokens_nonword:
  assumes "\<not> isWordChar c" and "k \<noteq> []" and "list_all isWordChar k"
  shows "replaceWholeWords k v (c # cs) = c # replaceWholeWords k v cs"
proof -
  have "\<not> sameWord [c] k"
  proof
    assume s: "sameWord [c] k"
    then obtain a where "k = [a]"
      using sameWord_length [OF s] by (cases k) auto
    with s assms word_differs_from_nonword [of a c] show False
      by (simp add: sameWord_Cons)
  qed
  with assms(1) show ?thesis
    by (simp add: replaceWholeWords_def)
qed

lemma replaceAll_whole_words:
  assumes "k \<noteq> []" and "list_all isWordChar k" and "CHR ''$'' \<notin> set v"
    and "\<not> (isWordAt pre \<and> isWordAt s)"
  shows "replaceAll (map Lit k) v pre s = replaceWholeWords k v s"
  using assms(4)
proof (induction s arbitrary: pre rule: tokens.induct)
  case 1
  have "match_here (map Lit k) pre [] = None"
    using assms(1) by (cases k) (simp_all add: match_here_def)
  then show ?case
    by (subst replaceAll.simps) (simp add: replaceWholeWords_def)
next
  case (2 c cs)
  show ?case
  proof (cases "isWordChar c")
    case False
    have "replaceAll (map Lit k) v (c # pre) cs = replaceWholeWords k v cs"
      using False by (intro 2(2)) (simp_all add: isWordAt_def)
    then show ?thesis
      using match_here_nonword [OF assms(1,2) False, of pre cs]
      by (subst replaceAll.simps) (simp add: tokens_nonword [OF False assms(1,2)])
  next
    case True
    let ?tw = "takeWhile isWordChar cs"
    let ?w = "c # ?tw"
    let ?rest = "dropWhile isWordChar cs"
    have s: "c # cs = ?w @ ?rest"
      by simp
    have w: "?w \<noteq> []" "list_all isWordChar ?w"
      using True by (auto simp: list_all_iff dest: set_takeWhileD)
    have rest: "\<not> isWordAt ?rest"
    proof (cases ?rest)
      case Nil
      show ?thesis
        unfolding Nil by (simp add: isWordAt_def)
    next
      case (Cons r rs)
      have "?rest \<noteq> []"
        unfolding Cons by simp
      then have "\<not> isWordChar (hd ?rest)"
        by (rule hd_dropWhile)
      then show ?thesis
        unfolding Cons by (simp add: isWordAt_def)
    qed
    have pre: "\<not> isWordAt pre"
      using 2(3) True by (simp add: isWordAt_def)
    have mh: "match_here (map Lit k) pre (c # cs) = (if sameWord ?w k then Some (?w, ?rest) else None)"
      using match_here_word [OF assms(1,2) w pre rest] by simp
    have ih: "replaceAll (map Lit k) v pre' ?rest = replaceWholeWords k v ?rest" for pre'
      using True rest by (intro 2(1)) simp_all
    show ?thesis
    proof (cases "sameWord ?w k")
      case sw: True
      then show ?thesis
        by (subst replaceAll.simps)
           (simp add: mh expand_no_dollar [OF assms(3)] ih tokens_word [OF True])
    next
      case sw: False
      have "replaceAll (map Lit k) v (c # pre) (?tw @ ?rest) =
          ?tw @ replaceAll (map Lit k) v (rev ?tw @ c # pre) ?rest"
        using True w(2) by (intro replaceAll_inside_word) (simp_all add: isWordAt_def)
      then have "replaceAll (map Lit k) v (c # pre) cs = ?tw @ replaceWholeWords k v ?rest"
        by (simp add: ih)
      with sw show ?thesis
        by (subst replaceAll.simps) (simp add: mh tokens_word [OF True])
    qed
  qed
qed

lemma replacePattern_word:
  assumes "k \<noteq> []" and "list_all isWordChar k" and "CHR ''$'' \<notin> set v"
  shows "replacePattern k v s = Some (replaceWholeWords k v s)"
  using replaceAll_whole_words [OF assms, of "[]" s]
  by (simp add: replacePattern_def patternAtoms_word [OF assms(2)] isWordAt_def)

text \<open>
  C8, amended. When every key of the map is a non-empty run of word characters and no
  value holds a dollar, the rewrite goes through the entries in the order of the map,
  and each step replaces, in the text as the steps before it left it, exactly the words
  (maximal runs of word characters) that are the key up to letter case by the value of
  the key; a key inside a longer word is not replaced.
\<close>

theorem substitutePronunciations_whole_words:
  assumes "list_all plainEntry pronunciationMap"
  shows "substitutePronunciations pronunciationMap dialogueToSpeak =
    Some (foldl (\<lambda>spoken (w, p). replaceWholeWords w p spoken) dialogueToSpeak pronunciationMap)"
  using assms
proof (induction pronunciationMap arbitrary: dialogueToSpeak)
  case Nil
  show ?case by simp
next
  case (Cons e pronunciationMap)
  obtain w p where e: "e = (w, p)"
    by (cases e)
  with Cons.prems have "replacePattern w p dialogueToSpeak = Some (replaceWholeWords w p dialogueToSpeak)"
    by (intro replacePattern_word) (simp_all add: plainEntry_def)
  with Cons show ?case
    by (simp add: e)
qed

theorem substitutePronunciations_whole_words_witness:
  "substitutePronunciations (pronunciationMapOf ''Siobhan=Shiv-awn'')
     ''Ask siobhan, not Siobhans.'' = Some ''Ask Shiv-awn, not Siobhans.''"
proof -
  have m: "pronunciationMapOf ''Siobhan=Shiv-awn'' = [(''Siobhan'', ''Shiv-awn'')]"
    by code_simp
  have h: "list_all plainEntry [(''Siobhan'', ''Shiv-awn'')]"
    by code_simp
  have v: "replaceWholeWords ''Siobhan'' ''Shiv-awn'' ''Ask siobhan, not Siobhans.'' =
      ''Ask Shiv-awn, not Siobhans.''"
    by code_simp
  from substitutePronunciations_whole_words [OF h, of "''Ask siobhan, not Siobhans.''"]
  show ?thesis
    unfolding m by (simp add: v)
qed

text \<open>
  C8, as the specification states it, fails. The entries are applied one after
  another, so the word \<open>Dr\<close> is replaced by \<open>Dok-ter\<close>, which is not the value of its
  key. A key is read as a pattern, so with the key \<open>St.\<close> the word \<open>Stu\<close>, in which
  the key does not occur, is replaced, and the key itself, where it occurs, is not.
\<close>

theorem substitutePronunciations_counterexample:
  "substitutePronunciations
      (pronunciationMapOf (''Dr=Doctor'' @ [CHR 0x0A] @ ''Doctor=Dok-ter'')) ''Dr Who'' =
     Some ''Dok-ter Who''
   \<and> substitutePronunciations
      (pronunciationMapOf (''Dr=Doctor'' @ [CHR 0x0A] @ ''Doctor=Dok-ter'')) ''Dr Who'' \<noteq>
     Some ''Doctor Who''
   \<and> substitutePronunciations (pronunciationMapOf ''St.=Saint'') ''Stu went to St. Ives'' =
     Some ''Saint went to St. Ives''"
  by code_simp


end
